theory Spec2Isabelle
  imports Complex_Main "HOL-Library.Word" "HOL-Library.AList"
begin

section \<open>Python values and errors\<close>

text \<open>
  Exceptions of the source are values: a function that may raise returns
  \<open>error + 'a\<close>, with \<open>Inl\<close> the exception. Python floats are modelled by the
  real numbers (idealised arithmetic, no rounding).
\<close>

datatype error =
    ZeroDivisionError
  | OverflowError
  | ValueError
  | IndexError
  | KeyError
  | TypeError
  | AttributeError

text \<open>A comprehension whose element expression may raise: the first exception wins.\<close>

fun traverse :: "('a \<Rightarrow> error + 'b) \<Rightarrow> 'a list \<Rightarrow> error + 'b list" where
  "traverse f [] = Inr []"
| "traverse f (x # xs) =
     (case f x of
        Inl e \<Rightarrow> Inl e
      | Inr y \<Rightarrow> (case traverse f xs of Inl e \<Rightarrow> Inl e | Inr ys \<Rightarrow> Inr (y # ys)))"

text \<open>\<open>int(x)\<close> on a float truncates towards zero.\<close>

definition py_int :: "real \<Rightarrow> int" where
  "py_int x = (if 0 \<le> x then \<lfloor>x\<rfloor> else \<lceil>x\<rceil>)"

text \<open>\<open>round(x)\<close> on a float rounds to the nearest integer, halves to the even one.\<close>

definition py_round :: "real \<Rightarrow> int" where
  "py_round x =
     (let f = \<lfloor>x\<rfloor>; d = x - of_int f
      in if d < 1 / 2 then f
         else if 1 / 2 < d then f + 1
         else if even f then f else f + 1)"

section \<open>numpy arrays\<close>

text \<open>
  An \<open>ndarray\<close> is a view on a block of elements: the element at index
  \<open>[i\<^sub>0, i\<^sub>1, ...]\<close> is \<open>data ! (offset + i\<^sub>0 * strides\<^sub>0 + i\<^sub>1 * strides\<^sub>1 + ...)\<close>.
  Strides count elements here (numpy counts bytes: these times \<open>itemsize\<close>).
\<close>

record 'a ndarray =
  data :: "'a list"
  offset :: int
  shape :: "nat list"
  strides :: "int list"
  itemsize :: nat
  dtype_name :: string

definition nbytes :: "'a ndarray \<Rightarrow> nat" where
  "nbytes a = prod_list (shape a) * itemsize a"

definition item :: "'a ndarray \<Rightarrow> nat list \<Rightarrow> 'a" where
  "item a idx = data a ! nat (offset a + sum_list (map2 (\<lambda>i s. int i * s) idx (strides a)))"

text \<open>All indices of a shape, last axis fastest (C order).\<close>

fun indices :: "nat list \<Rightarrow> nat list list" where
  "indices [] = [[]]"
| "indices (n # ns) = concat (map (\<lambda>i. map ((#) i) (indices ns)) [0..<n])"

datatype order = C | F

text \<open>
  \<open>a.ravel(order)\<close>: the elements listed with the last index fastest (\<open>C\<close>) or
  with the first index fastest (\<open>F\<close>).
\<close>

definition ravel :: "order \<Rightarrow> 'a ndarray \<Rightarrow> 'a list" where
  "ravel ord a =
     (case ord of
        C \<Rightarrow> map (item a) (indices (shape a))
      | F \<Rightarrow> map (\<lambda>idx. item a (rev idx)) (indices (rev (shape a))))"

text \<open>Strides of a freshly allocated (C-contiguous) array of a shape.\<close>

fun c_strides :: "nat list \<Rightarrow> int list" where
  "c_strides [] = []"
| "c_strides (n # ns) = int (prod_list ns) # c_strides ns"

text \<open>
  \<open>flags['F_CONTIGUOUS']\<close>: an array with no elements is contiguous; otherwise
  the first axis has stride one element and each next axis steps over the
  axes before it, an axis of length 1 having any stride.
\<close>

fun f_contig_from :: "int \<Rightarrow> (nat \<times> int) list \<Rightarrow> bool" where
  "f_contig_from sd [] = True"
| "f_contig_from sd ((n, st) # r) =
     (if n = 1 then f_contig_from sd r else st = sd \<and> f_contig_from (sd * int n) r)"

definition F_CONTIGUOUS :: "'a ndarray \<Rightarrow> bool" where
  "F_CONTIGUOUS a = (0 \<in> set (shape a) \<or> f_contig_from 1 (zip (shape a) (strides a)))"

text \<open>Number of indices a slice \<open>::step\<close> selects on an axis of length \<open>n\<close>.\<close>

definition slice_len :: "nat \<Rightarrow> int \<Rightarrow> nat" where
  "slice_len n step = (n + nat \<bar>step\<bar> - 1) div nat \<bar>step\<bar>"

text \<open>Where a slice \<open>::step\<close> starts: at the last index when the step is negative.\<close>

definition slice_start :: "nat \<Rightarrow> int \<Rightarrow> int" where
  "slice_start n step = (if step < 0 \<and> 0 < n then int n - 1 else 0)"

text \<open>
  \<open>a[::s\<^sub>0, ::s\<^sub>1, ...]\<close>: a view on the same data. More slices than axes is an
  IndexError, a zero step a ValueError; axes beyond the slices are kept whole.
\<close>

definition getitem_steps :: "'a ndarray \<Rightarrow> int list \<Rightarrow> error + 'a ndarray" where
  "getitem_steps a steps =
     (let k = length steps in
      if length (shape a) < k then Inl IndexError
      else if 0 \<in> set steps then Inl ValueError
      else Inr (a\<lparr>
        offset := offset a
          + sum_list (map2 (\<lambda>(n, st) step. slice_start n step * st) (zip (shape a) (strides a)) steps),
        shape := map2 slice_len (shape a) steps @ drop k (shape a),
        strides := map2 (*) (strides a) steps @ drop k (strides a)\<rparr>))"

text \<open>\<open>a.min()\<close> and \<open>a.max()\<close>: a ValueError on an array with no elements.\<close>

definition amin :: "('a :: linorder) ndarray \<Rightarrow> error + 'a" where
  "amin a = (case ravel C a of [] \<Rightarrow> Inl ValueError | x # xs \<Rightarrow> Inr (fold min xs x))"

definition amax :: "('a :: linorder) ndarray \<Rightarrow> error + 'a" where
  "amax a = (case ravel C a of [] \<Rightarrow> Inl ValueError | x # xs \<Rightarrow> Inr (fold max xs x))"

section \<open>Colour mappers of the scalar bars\<close>

text \<open>A number handed to \<open>_rgb2hex\<close>: an integer (Python or numpy) or a float.\<close>

datatype pynum = PyInt int | PyFloat real

fun is_int_type :: "pynum \<Rightarrow> bool" where
  "is_int_type (PyInt _) = True"
| "is_int_type (PyFloat _) = False"

definition hexchars :: string where
  "hexchars = ''0123456789abcdef''"

text \<open>The hexadecimal digits of a natural number, lower case, at least one.\<close>

fun hex :: "nat \<Rightarrow> string" where
  "hex n = (if n < 16 then [hexchars ! n] else hex (n div 16) @ [hexchars ! (n mod 16)])"

declare hex.simps [simp del]

text \<open>
  The format \<open>{:02x}\<close> of an integer: zero padded to two places, a minus sign
  counting as one of them. A float has no format code \<open>x\<close>.
\<close>

definition format_02x_int :: "int \<Rightarrow> string" where
  "format_02x_int n =
     (if n < 0 then CHR ''-'' # hex (nat (- n))
      else if n < 16 then CHR ''0'' # hex (nat n) else hex (nat n))"

fun format_02x :: "pynum \<Rightarrow> error + string" where
  "format_02x (PyInt n) = Inr (format_02x_int n)"
| "format_02x (PyFloat x) = Inl ValueError"

text \<open>\<open>int(255 * x)\<close>\<close>

fun int_255 :: "pynum \<Rightarrow> int" where
  "int_255 (PyInt n) = 255 * n"
| "int_255 (PyFloat x) = py_int (255 * x)"

text \<open>
  \<open>SyncHelpers._rgb2hex\<close>. The test reads
  \<open>isinstance(r, int_type) and isinstance(g, int_type) is isinstance(b, int_type)\<close>.
\<close>

definition rgb2hex :: "pynum \<Rightarrow> pynum \<Rightarrow> pynum \<Rightarrow> error + string" where
  "rgb2hex r g b =
     (if is_int_type r \<and> (is_int_type g = is_int_type b) then
        (case format_02x r of
           Inl e \<Rightarrow> Inl e
         | Inr sr \<Rightarrow>
             (case format_02x g of
                Inl e \<Rightarrow> Inl e
              | Inr sg \<Rightarrow>
                  (case format_02x b of
                     Inl e \<Rightarrow> Inl e
                   | Inr sb \<Rightarrow> Inr (CHR ''#'' # sr @ sg @ sb))))
      else Inr (CHR ''#'' # format_02x_int (int_255 r) @ format_02x_int (int_255 g)
                  @ format_02x_int (int_255 b)))"

text \<open>
  What the code reads of a vtk lookup table: the bytes of its table (four per
  colour: red, green, blue, alpha) and its range. A view prop is a scalar bar
  with a title and a lookup table, or something else.
\<close>

record lookup_table =
  GetTable :: "8 word list"
  GetTableRange :: "real \<times> real"

datatype view_prop = ScalarBarActor string "lookup_table option" | OtherProp

record LinearColorMapper =
  low :: real
  high :: real
  name :: string
  palette :: "string list"

text \<open>\<open>.reshape((-1, 4))\<close>: the rows of four, a ValueError when some bytes are left over.\<close>

fun reshape4 :: "'a list \<Rightarrow> error + 'a list list" where
  "reshape4 [] = Inr []"
| "reshape4 (r # g # b # a # rest) =
     (case reshape4 rest of Inl e \<Rightarrow> Inl e | Inr rows \<Rightarrow> Inr ([r, g, b, a] # rows))"
| "reshape4 _ = Inl ValueError"

text \<open>
  \<open>self._rgb2hex(*rgb)\<close> for a row \<open>rgb\<close> of \<open>rgba_arr[:,:3]\<close>: the bytes are numpy
  integers; a row that is not of three values does not fit the three parameters.
\<close>

fun rgb2hex_row :: "8 word list \<Rightarrow> error + string" where
  "rgb2hex_row [r, g, b] = rgb2hex (PyInt (uint r)) (PyInt (uint g)) (PyInt (uint b))"
| "rgb2hex_row _ = Inl TypeError"

text \<open>
  The body of the loop for a scalar bar. A scalar bar without a lookup table
  gives \<open>None\<close> for it, and \<open>None.GetTable()\<close> is an AttributeError.
\<close>

definition color_mapper :: "string \<Rightarrow> lookup_table option \<Rightarrow> error + LinearColorMapper" where
  "color_mapper title lookup =
     (case lookup of
        None \<Rightarrow> Inl AttributeError
      | Some lut \<Rightarrow>
          (case reshape4 (GetTable lut) of
             Inl e \<Rightarrow> Inl e
           | Inr rgba_arr \<Rightarrow>
               (case traverse rgb2hex_row (map (take 3) rgba_arr) of
                  Inl e \<Rightarrow> Inl e
                | Inr pal \<Rightarrow>
                    Inr \<lparr>low = fst (GetTableRange lut), high = snd (GetTableRange lut),
                         name = title, palette = pal\<rparr>)))"

text \<open>\<open>SyncHelpers.get_color_mappers\<close>, over the view props of the renderer.\<close>

fun get_color_mappers :: "view_prop list \<Rightarrow> error + LinearColorMapper list" where
  "get_color_mappers [] = Inr []"
| "get_color_mappers (ScalarBarActor title lut # view_props) =
     (case color_mapper title lut of
        Inl e \<Rightarrow> Inl e
      | Inr cmap \<Rightarrow>
          (case get_color_mappers view_props of
             Inl e \<Rightarrow> Inl e
           | Inr cmaps \<Rightarrow> Inr (cmap # cmaps)))"
| "get_color_mappers (OtherProp # view_props) = get_color_mappers view_props"

section \<open>Serializing a render window\<close>

text \<open>The Python values a serialized scene is made of; a dictionary keeps its keys in order.\<close>

datatype pyval =
    PNone
  | PBool bool
  | PInt int
  | PFloat real
  | PStr string
  | PList "pyval list"
  | PDict "(string \<times> pyval) list"

text \<open>\<open>obj[key]\<close> with a string key: only a dictionary has one.\<close>

fun getitem :: "pyval \<Rightarrow> string \<Rightarrow> error + pyval" where
  "getitem (PDict d) key = (case map_of d key of None \<Rightarrow> Inl KeyError | Some v \<Rightarrow> Inr v)"
| "getitem _ key = Inl TypeError"

text \<open>\<open>obj[key] = value\<close> with a string key: the object after the assignment.\<close>

fun setitem :: "pyval \<Rightarrow> string \<Rightarrow> pyval \<Rightarrow> error + pyval" where
  "setitem (PDict d) key v = Inr (PDict (AList.update key v d))"
| "setitem _ key v = Inl TypeError"

text \<open>
  The context of \<open>synchronizable_serializer\<close>: the code here reads the keys of its
  array cache, whatever the cached objects are.
\<close>

record 'a SynchronizationContext =
  dataArrayCache :: "(string \<times> 'a) list"

text \<open>
  The module \<open>synchronizable_serializer\<close> (imported as \<open>rws\<close>) is not part of the
  sources at hand; its functions that the pane calls are parameters.
  \<open>serializeInstance\<close> walks the render window and returns the scene with the
  context it leaves behind; \<open>getCachedDataArray context name binary compression\<close>
  is the payload of a cached array.
\<close>

record ('w, 'a) rws =
  serializeInstance ::
    "pyval \<Rightarrow> 'w \<Rightarrow> string \<Rightarrow> 'a SynchronizationContext \<Rightarrow> nat \<Rightarrow> pyval \<times> 'a SynchronizationContext"
  getReferenceId :: "'a SynchronizationContext \<Rightarrow> 'w \<Rightarrow> string"
  getCachedDataArray :: "'a SynchronizationContext \<Rightarrow> string \<Rightarrow> bool \<Rightarrow> bool \<Rightarrow> string"

text \<open>
  \<open>VTK._serialize_ren_win\<close>: the scene, the payloads of the cached arrays that are
  not excluded, and the context after the walk. The three calls that prepare
  the window for off-screen rendering belong to vtk and are part of what
  \<open>serializeInstance\<close> sees.
\<close>

definition serialize_ren_win ::
  "('w, 'a) rws \<Rightarrow> 'w \<Rightarrow> 'a SynchronizationContext \<Rightarrow> string list option
    \<Rightarrow> error + (pyval \<times> (string \<times> string) list \<times> 'a SynchronizationContext)" where
  "serialize_ren_win rws ren_win context exclude_arrays =
     (let exclude_arrays = (case exclude_arrays of None \<Rightarrow> [] | Some names \<Rightarrow> names);
          (scene, context) =
             serializeInstance rws PNone ren_win (getReferenceId rws context ren_win) context 0
      in case getitem scene ''properties'' of
           Inl e \<Rightarrow> Inl e
         | Inr properties \<Rightarrow>
             (case setitem properties ''numberOfLayers'' (PInt 2) of
                Inl e \<Rightarrow> Inl e
              | Inr properties \<Rightarrow>
                  (case setitem scene ''properties'' properties of
                     Inl e \<Rightarrow> Inl e
                   | Inr scene \<Rightarrow>
                       Inr (scene,
                            map (\<lambda>name. (name, getCachedDataArray rws context name False True))
                              (filter (\<lambda>name. name \<notin> set exclude_arrays)
                                 (map fst (dataArrayCache context))),
                            context))))"

section \<open>Exporting a scene\<close>

text \<open>
  A zip archive as \<open>zipfile\<close> presents it: the entries in the order written,
  each with its name, its compression method and the bytes handed to
  \<open>writestr\<close>, which are the bytes \<open>read\<close> gives back. Reading a name gives the
  entry written last under it, and a KeyError when there is none.
\<close>

datatype compress_type = ZIP_STORED | ZIP_DEFLATED

record zip_entry =
  arcname :: string
  compression :: compress_type
  content :: string




section \<open>The volume pane\<close>

text \<open>The fields of a \<open>VTKVolume\<close> pane that the volume code reads and writes.\<close>

record VTKVolume =
  spacing :: "real list"
  max_data_size :: real
  origin :: "real list option"
  sub_spacing :: "real list"

subsection \<open>The volume transfer record\<close>

text \<open>
  \<open>base64.b64encode\<close>: three bytes become four characters of the standard
  alphabet, a last group of one or two bytes is padded with \<open>=\<close>.
\<close>

definition b64chars :: string where
  "b64chars = ''ABCDEFGHIJKLMNOPQRSTUVWXYZabcdefghijklmnopqrstuvwxyz0123456789+/''"

fun b64encode :: "8 word list \<Rightarrow> string" where
  "b64encode [] = []"
| "b64encode [a] =
     [b64chars ! (unat a div 4), b64chars ! (unat a mod 4 * 16), CHR ''='', CHR ''='']"
| "b64encode [a, b] =
     [b64chars ! (unat a div 4), b64chars ! (unat a mod 4 * 16 + unat b div 16),
      b64chars ! (unat b mod 16 * 4), CHR ''='']"
| "b64encode (a # b # c # r) =
     [b64chars ! (unat a div 4), b64chars ! (unat a mod 4 * 16 + unat b div 16),
      b64chars ! (unat b mod 16 * 4 + unat c div 64), b64chars ! (unat c mod 64)]
     @ b64encode r"

text \<open>\<open>base64encode = lambda x: base64.b64encode(x).decode('utf-8')\<close>\<close>

definition base64encode :: "8 word list \<Rightarrow> string" where
  "base64encode x = b64encode x"

text \<open>
  The dictionary \<open>_volume_from_array\<close> builds. The keys \<open>spacing\<close> and \<open>origin\<close>
  carry a prime here: the pane has fields of these names.
\<close>

record 'a volume =
  buffer :: string
  dims :: "nat list"
  spacing' :: "real list"
  origin' :: "real list option"
  data_range :: "'a \<times> 'a"
  dtype :: string

text \<open>
  \<open>VTKVolume._volume_from_array\<close>. \<open>tobytes\<close> is the byte representation of one
  element under the array's dtype; the bytes of the ravelled array are those of
  its elements in turn.
\<close>

definition volume_from_array ::
  "('a \<Rightarrow> 8 word list) \<Rightarrow> VTKVolume \<Rightarrow> ('a :: linorder) ndarray \<Rightarrow> error + 'a volume" where
  "volume_from_array tobytes self sub_array =
     (let buf = base64encode (concat (map tobytes
                  (ravel (if F_CONTIGUOUS sub_array then F else C) sub_array)));
          dms = (if F_CONTIGUOUS sub_array then shape sub_array else rev (shape sub_array));
          spc = (if F_CONTIGUOUS sub_array then sub_spacing self else rev (sub_spacing self))
      in case amin sub_array of
           Inl e \<Rightarrow> Inl e
         | Inr lo \<Rightarrow>
             (case amax sub_array of
                Inl e \<Rightarrow> Inl e
              | Inr hi \<Rightarrow>
                  Inr \<lparr>buffer = buf, dims = dms, spacing' = spc, origin' = origin self,
                       data_range = (lo, hi), dtype = dtype_name sub_array\<rparr>))"

subsection \<open>Subsampling\<close>

text \<open>
  \<open>scipy.ndimage\<close> is imported inside the function: \<open>None\<close> is the ImportError,
  \<open>Some z\<close> the library, \<open>z a zoom out_shape\<close> giving the resampled elements in C
  order. The shape of the output follows the library's rule,
  \<open>int(round(n * zoom))\<close> per axis, and the output is a fresh array.
\<close>

type_synonym 'a zoom_facility = "('a ndarray \<Rightarrow> real list \<Rightarrow> nat list \<Rightarrow> 'a list) option"

definition zoom_shape :: "nat list \<Rightarrow> real list \<Rightarrow> int list" where
  "zoom_shape shp zoom = map2 (\<lambda>ii jj. py_round (real ii * jj)) shp zoom"

definition nd_zoom ::
  "('a ndarray \<Rightarrow> real list \<Rightarrow> nat list \<Rightarrow> 'a list) \<Rightarrow> 'a ndarray \<Rightarrow> real list \<Rightarrow> error + 'a ndarray" where
  "nd_zoom z a zoom =
     (let out = zoom_shape (shape a) zoom in
      if \<exists>n \<in> set out. n < 0 then Inl ValueError
      else Inr \<lparr>data = z a zoom (map nat out), offset = 0, shape = map nat out,
                strides = c_strides (map nat out), itemsize = itemsize a,
                dtype_name = dtype_name a\<rparr>)"

text \<open>\<open>extent = tuple((o_s - 1) * s for o_s, s in zip(original_shape, spacing))\<close>\<close>

definition extent_of :: "nat list \<Rightarrow> real list \<Rightarrow> real list" where
  "extent_of original_shape spc = map2 (\<lambda>o_s s. (real o_s - 1) * s) original_shape spc"

text \<open>\<open>dim_ratio = np.cbrt((array.nbytes / 1e6) / self.max_data_size)\<close>\<close>

definition dim_ratio_of :: "VTKVolume \<Rightarrow> 'a ndarray \<Rightarrow> error + real" where
  "dim_ratio_of self a =
     (if max_data_size self = 0 then Inl ZeroDivisionError
      else Inr (root 3 ((real (nbytes a) / 1000000) / max_data_size self)))"

text \<open>
  \<open>max_shape = tuple(int(o_s / dim_ratio) for o_s in original_shape)\<close>. The
  ratio is a numpy float: dividing by a zero ratio gives \<open>nan\<close> (from 0) or
  \<open>inf\<close>, which \<open>int\<close> refuses.
\<close>

definition max_shape_of :: "real \<Rightarrow> nat list \<Rightarrow> error + int list" where
  "max_shape_of dim_ratio original_shape =
     traverse (\<lambda>o_s. if dim_ratio = 0 then (if o_s = 0 then Inl ValueError else Inl OverflowError)
                      else Inr (py_int (real o_s / dim_ratio))) original_shape"

text \<open>\<open>dowsnscale_factor = [max(o_s, m_s) / m_s for m_s, o_s in zip(max_shape, original_shape)]\<close>\<close>

definition dowsnscale_factor_of :: "int list \<Rightarrow> nat list \<Rightarrow> error + real list" where
  "dowsnscale_factor_of max_shape original_shape =
     traverse (\<lambda>(m_s, o_s). if m_s = 0 then Inl ZeroDivisionError
                            else Inr (real_of_int (max (int o_s) m_s) / real_of_int m_s))
       (zip max_shape original_shape)"

text \<open>The factors of an array under a pane's budget, or the exception on the way.\<close>

definition factors :: "VTKVolume \<Rightarrow> 'a ndarray \<Rightarrow> error + real list" where
  "factors self a =
     (case dim_ratio_of self a of
        Inl e \<Rightarrow> Inl e
      | Inr dim_ratio \<Rightarrow>
          (case max_shape_of dim_ratio (shape a) of
             Inl e \<Rightarrow> Inl e
           | Inr max_shape \<Rightarrow> dowsnscale_factor_of max_shape (shape a)))"

text \<open>
  The strided fallback
  \<open>array[::int(np.ceil(f[0])), ::int(np.ceil(f[1])), ::int(np.ceil(f[2]))]\<close>.
\<close>

definition strided :: "'a ndarray \<Rightarrow> real list \<Rightarrow> error + 'a ndarray" where
  "strided a dowsnscale_factor =
     (if length dowsnscale_factor < 3 then Inl IndexError
      else getitem_steps a (map (\<lambda>d_f. \<lceil>d_f\<rceil>) (take 3 dowsnscale_factor)))"

text \<open>The \<open>try\<close> block: the zoom when scipy imports, the strided view otherwise.\<close>

definition resample :: "'a zoom_facility \<Rightarrow> 'a ndarray \<Rightarrow> real list \<Rightarrow> error + 'a ndarray" where
  "resample scipy a dowsnscale_factor =
     (case scipy of
        Some z \<Rightarrow>
          (case traverse (\<lambda>d_f. if d_f = 0 then Inl ZeroDivisionError else Inr (1 / d_f))
                  dowsnscale_factor of
             Inl e \<Rightarrow> Inl e
           | Inr zoom \<Rightarrow> nd_zoom z a zoom)
      | None \<Rightarrow> strided a dowsnscale_factor)"

text \<open>
  \<open>tuple(e / (s - 1) for e, s in zip(extent, sub_array.shape))\<close>. The spacing
  and so the extent are Python numbers: dividing by zero raises.
\<close>

definition respace :: "real list \<Rightarrow> nat list \<Rightarrow> error + real list" where
  "respace extent sub_shape =
     traverse (\<lambda>(e, s). if s = 1 then Inl ZeroDivisionError else Inr (e / (real s - 1)))
       (zip extent sub_shape)"

text \<open>
  \<open>VTKVolume._subsample_array\<close>: returns the array to transfer and the pane
  with \<open>_sub_spacing\<close> set; an exception leaves the pane as it was.
\<close>

definition subsample_array ::
  "'a zoom_facility \<Rightarrow> VTKVolume \<Rightarrow> 'a ndarray \<Rightarrow> error + ('a ndarray \<times> VTKVolume)" where
  "subsample_array scipy self a =
     (let original_shape = shape a;
          extent = extent_of original_shape (spacing self)
      in case factors self a of
           Inl e \<Rightarrow> Inl e
         | Inr dowsnscale_factor \<Rightarrow>
             if \<exists>d_f \<in> set dowsnscale_factor. 1 < d_f then
               (case resample scipy a dowsnscale_factor of
                  Inl e \<Rightarrow> Inl e
                | Inr sub_array \<Rightarrow>
                    (case respace extent (shape sub_array) of
                       Inl e \<Rightarrow> Inl e
                     | Inr sp \<Rightarrow> Inr (sub_array, self\<lparr>sub_spacing := sp\<rparr>)))
             else Inr (a, self\<lparr>sub_spacing := spacing self\<rparr>))"

section \<open>The identity registry\<close>

text \<open>
  Modelled from the spec: the identity registry of section 4.1, whose code
  (\<open>getReferenceId\<close> of the context in \<open>synchronizable_serializer\<close>) is not among
  the sources at hand. A registry records the identifier of each object it has
  seen and holds a registry-wide counter that only grows.
\<close>

record 'o registry =
  assigned :: "'o \<rightharpoonup> nat"
  counter :: nat

text \<open>Modelled from the spec: a registry at the start of its lifetime.\<close>

definition new_registry :: "'o registry" where
  "new_registry = \<lparr>assigned = Map.empty, counter = 0\<rparr>"

text \<open>
  Modelled from the spec: \<open>getOrAssignId\<close> returns the identifier assigned before
  to this object; otherwise it mints a new one, the counter's value, and
  records it.
\<close>

definition getOrAssignId :: "'o \<Rightarrow> 'o registry \<Rightarrow> nat \<times> 'o registry" where
  "getOrAssignId obj reg =
     (case assigned reg obj of
        Some i \<Rightarrow> (i, reg)
      | None \<Rightarrow> (counter reg,
                 reg\<lparr>assigned := (assigned reg)(obj \<mapsto> counter reg), counter := counter reg + 1\<rparr>))"

text \<open>The identifiers a registry hands out over its lifetime, asked for one object after another.\<close>

fun assign_all :: "'o list \<Rightarrow> 'o registry \<Rightarrow> nat list \<times> 'o registry" where
  "assign_all [] reg = ([], reg)"
| "assign_all (obj # objs) reg =
     (let (i, reg) = getOrAssignId obj reg; (ids, reg) = assign_all objs reg in (i # ids, reg))"

section \<open>Notions used in the statements\<close>

text \<open>
  Following the specification's words: the extent of a volume as its spacing
  times its sample count, per axis.
\<close>

definition extent_by_count :: "real list \<Rightarrow> nat list \<Rightarrow> real list" where
  "extent_by_count spc shp = map2 (\<lambda>s n. s * real n) spc shp"

text \<open>
  Following the specification's words: a colour as \<open>#rrggbb\<close>, two lower-case
  hexadecimal digits per channel, and the palette of a table with one entry
  per row of four bytes, the fourth (alpha) left out.
\<close>

definition hex_color :: "8 word \<Rightarrow> 8 word \<Rightarrow> 8 word \<Rightarrow> string" where
  "hex_color r g b =
     CHR ''#'' # concat (map (\<lambda>c. [hexchars ! (unat c div 16), hexchars ! (unat c mod 16)]) [r, g, b])"

definition palette_of_table :: "8 word list \<Rightarrow> string list" where
  "palette_of_table t =
     map (\<lambda>i. hex_color (t ! (4 * i)) (t ! (4 * i + 1)) (t ! (4 * i + 2))) [0..<length t div 4]"

text \<open>The scalar bars among the view props, in order.\<close>

fun scalar_bars :: "view_prop list \<Rightarrow> (string \<times> lookup_table option) list" where
  "scalar_bars [] = []"
| "scalar_bars (ScalarBarActor title lookup # view_props) = (title, lookup) # scalar_bars view_props"
| "scalar_bars (OtherProp # view_props) = scalar_bars view_props"

text \<open>What holds of a registry at any time: its identifiers are below the counter, and no two objects share one.\<close>

definition registry_ok :: "'o registry \<Rightarrow> bool" where
  "registry_ok reg \<longleftrightarrow>
     (\<forall>obj i. assigned reg obj = Some i \<longrightarrow> i < counter reg)
     \<and> (\<forall>obj obj' i. assigned reg obj = Some i \<and> assigned reg obj' = Some i \<longrightarrow> obj = obj')"

section \<open>Concrete inputs\<close>

subsection \<open>Volumes and panes\<close>

text \<open>
  A 2 x 2 x 2 byte volume, and a pane with the default budget,
  \<open>(256 ** 3) * 2 / 1e6\<close> MB: nothing to reduce.
\<close>

definition vol222 :: "nat ndarray" where
  "vol222 = \<lparr>data = [0, 1, 2, 3, 4, 5, 6, 7], offset = 0, shape = [2, 2, 2],
             strides = [4, 2, 1], itemsize = 1, dtype_name = ''uint8''\<rparr>"

text \<open>The 2 x 2 x 2 volume laid out with the first axis fastest.\<close>

definition vol222F :: "nat ndarray" where
  "vol222F = \<lparr>data = [0, 1, 2, 3, 4, 5, 6, 7], offset = 0, shape = [2, 2, 2],
              strides = [1, 2, 4], itemsize = 1, dtype_name = ''uint8''\<rparr>"

definition pane_default :: VTKVolume where
  "pane_default = \<lparr>spacing = [1, 1, 1], max_data_size = 33554432 / 1000000, origin = None,
                   sub_spacing = [1, 1, 1]\<rparr>"


text \<open>
  A 4 x 4 x 4 byte volume under a budget of 16 bytes (the ratio is the cube
  root of 4, each axis is capped at 2), and the volume of the specification:
  512 x 512 x 512 samples, here of two bytes, under 64 MB (the ratio is the
  cube root of 4.194304, each axis is capped at 317). \<open>sub444\<close> and \<open>sub512\<close>
  are the views the strided fallback returns on them.
\<close>

definition vol444 :: "nat ndarray" where
  "vol444 = \<lparr>data = [0..<64], offset = 0, shape = [4, 4, 4],
             strides = [16, 4, 1], itemsize = 1, dtype_name = ''uint8''\<rparr>"

definition pane_16B :: VTKVolume where
  "pane_16B = \<lparr>spacing = [1, 1, 1], max_data_size = 16 / 1000000, origin = None,
              sub_spacing = [1, 1, 1]\<rparr>"

definition sub444 :: "nat ndarray" where
  "sub444 = vol444\<lparr>shape := [2, 2, 2], strides := [32, 8, 2]\<rparr>"

text \<open>
  A resampler to stand for the library in the examples: the output element at
  an index is the input element at the index divided by the zoom, rounded down.
\<close>

definition nearest :: "'a ndarray \<Rightarrow> real list \<Rightarrow> nat list \<Rightarrow> 'a list" where
  "nearest a zoom out =
     map (\<lambda>idx. item a (map2 (\<lambda>i zf. nat \<lfloor>real i / zf\<rfloor>) idx zoom)) (indices out)"

definition zoomed444 :: "nat ndarray" where
  "zoomed444 = \<lparr>data = [0, 2, 8, 10, 32, 34, 40, 42], offset = 0, shape = [2, 2, 2],
                strides = [4, 2, 1], itemsize = 1, dtype_name = ''uint8''\<rparr>"

definition vol512 :: "nat ndarray" where
  "vol512 = \<lparr>data = replicate (512 * 512 * 512) 0, offset = 0, shape = [512, 512, 512],
             strides = [262144, 512, 1], itemsize = 2, dtype_name = ''uint16''\<rparr>"

definition pane_64MB :: VTKVolume where
  "pane_64MB = \<lparr>spacing = [1, 1, 1], max_data_size = 64, origin = None,
              sub_spacing = [1, 1, 1]\<rparr>"

definition sub512 :: "nat ndarray" where
  "sub512 = vol512\<lparr>shape := [256, 256, 256], strides := [524288, 1024, 2]\<rparr>"

text \<open>
  A thin volume, 2 x 8 x 8 bytes, under a budget of 32 bytes (the ratio is the
  cube root of 4, the axes are capped at 1, 5 and 5): one sample is left on the
  first axis.
\<close>

definition vol288 :: "nat ndarray" where
  "vol288 = \<lparr>data = [0..<128], offset = 0, shape = [2, 8, 8],
             strides = [64, 8, 1], itemsize = 1, dtype_name = ''uint8''\<rparr>"

definition pane_32B :: VTKVolume where
  "pane_32B = \<lparr>spacing = [1, 1, 1], max_data_size = 32 / 1000000, origin = None,
              sub_spacing = [1, 1, 1]\<rparr>"

text \<open>Elements of dtype \<open>uint8\<close>: one byte each.\<close>

definition uint8_bytes :: "nat \<Rightarrow> 8 word list" where
  "uint8_bytes n = [word_of_nat n]"

subsection \<open>A scalar bar\<close>

text \<open>A renderer with an actor and one scalar bar of two colours.\<close>

definition lut2 :: lookup_table where
  "lut2 = \<lparr>GetTable = [255, 0, 0, 255, 0, 128, 16, 255], GetTableRange = (0, 1)\<rparr>"

definition props2 :: "view_prop list" where
  "props2 = [OtherProp, ScalarBarActor ''T'' (Some lut2)]"

subsection \<open>A small serializer for the examples\<close>

text \<open>
  A render window is here the list of its arrays, each with its key; the walk
  caches the arrays it has not seen and returns a scene of one layer.
\<close>

definition example_rws :: "((string \<times> string) list, string) rws" where
  "example_rws =
     \<lparr>serializeInstance = (\<lambda>parent ren_win instanceId ctx depth.
          (PDict [(''id'', PStr instanceId), (''type'', PStr ''vtkRenderWindow''),
                  (''properties'', PDict [(''numberOfLayers'', PInt 1)])],
           ctx\<lparr>dataArrayCache :=
             fold (\<lambda>(k, v) c. if map_of c k = None then c @ [(k, v)] else c) ren_win
               (dataArrayCache ctx)\<rparr>)),
      getReferenceId = (\<lambda>ctx ren_win. ''000001''),
      getCachedDataArray = (\<lambda>ctx name binary compression.
          case map_of (dataArrayCache ctx) name of None \<Rightarrow> [] | Some v \<Rightarrow> v)\<rparr>"

definition win1 :: "(string \<times> string) list" where
  "win1 = [(''a1'', ''xyz''), (''b2'', ''uvw'')]"

definition scene1 :: pyval where
  "scene1 = PDict [(''id'', PStr ''000001''), (''type'', PStr ''vtkRenderWindow''),
                   (''properties'', PDict [(''numberOfLayers'', PInt 2)])]"

definition ctx1 :: "string SynchronizationContext" where
  "ctx1 = \<lparr>dataArrayCache = [(''a1'', ''xyz''), (''b2'', ''uvw'')]\<rparr>"




section \<open>Properties of the subsampler\<close>

lemma traverse_Inr:
  "traverse f xs = Inr ys \<Longrightarrow> list_all2 (\<lambda>x y. f x = Inr y) xs ys"
proof (induction xs arbitrary: ys)
  case Nil
  then show ?case by simp
next
  case (Cons x xs)
  then show ?case by (auto split: sum.splits)
qed

lemma traverse_length: "traverse f xs = Inr ys \<Longrightarrow> length ys = length xs"
  by (drule traverse_Inr) (simp add: list_all2_lengthD)

lemma traverse_nth:
  assumes "traverse f xs = Inr ys" and "i < length xs"
  shows "f (xs ! i) = Inr (ys ! i)"
  using list_all2_nthD [OF traverse_Inr [OF assms(1)] assms(2)] .

lemma py_round_le: "x \<le> of_int k \<Longrightarrow> py_round x \<le> k"
  unfolding py_round_def Let_def
  by (auto simp: le_floor_iff) linarith+

lemma nat_ceil_div_le:
  fixes n s :: nat
  assumes "0 < s"
  shows "(n + s - 1) div s \<le> n"
proof -
  have "n \<le> n * s" using assms by simp
  then have "n + s - 1 \<le> n * s + (s - 1)" using assms by arith
  then have "(n + s - 1) div s \<le> (s - 1 + n * s) div s"
    by (simp add: div_le_mono add.commute)
  also have "\<dots> = n + (s - 1) div s"
    using assms by (intro div_mult_self1) simp
  also have "\<dots> = n" using assms by simp
  finally show ?thesis .
qed

lemma slice_len_le: "step \<noteq> 0 \<Longrightarrow> slice_len n step \<le> n"
  unfolding slice_len_def by (rule nat_ceil_div_le) simp

text \<open>
  When the factors are computed, one non-zero ratio \<open>r\<close> stands behind all of
  them: on each axis the cap \<open>int(o_s / r)\<close> is not zero and the factor is
  \<open>max(o_s, cap) / cap\<close>.
\<close>

lemma factors_ratio:
  assumes "factors self a = Inr dfs"
  shows "\<exists>r. r \<noteq> 0 \<and>
    list_all2 (\<lambda>o_s d_f. py_int (real o_s / r) \<noteq> 0 \<and>
        d_f = real_of_int (max (int o_s) (py_int (real o_s / r))) / real_of_int (py_int (real o_s / r)))
      (shape a) dfs"
proof -
  from assms obtain r ms where r: "dim_ratio_of self a = Inr r"
    and ms: "max_shape_of r (shape a) = Inr ms"
    and dfs: "dowsnscale_factor_of ms (shape a) = Inr dfs"
    by (auto simp: factors_def split: sum.splits)
  have len_ms: "length ms = length (shape a)"
    using ms by (simp add: max_shape_of_def traverse_length)
  have len_dfs: "length dfs = length (shape a)"
    using dfs len_ms by (simp add: dowsnscale_factor_of_def traverse_length)
  show ?thesis
  proof (cases "shape a = []")
    case True
    with len_dfs show ?thesis by (intro exI [of _ 1]) simp
  next
    case False
    then have pos: "0 < length (shape a)" by simp
    have r0: "r \<noteq> 0"
      using traverse_nth [OF ms [unfolded max_shape_of_def] pos]
      by (auto split: if_splits)
    have m: "ms ! i = py_int (real (shape a ! i) / r)" if "i < length (shape a)" for i
      using traverse_nth [OF ms [unfolded max_shape_of_def] that] r0 by simp
    have d: "ms ! i \<noteq> 0 \<and> dfs ! i = real_of_int (max (int (shape a ! i)) (ms ! i)) / real_of_int (ms ! i)"
      if "i < length (shape a)" for i
    proof -
      have "i < length (zip ms (shape a))" using that len_ms by simp
      from traverse_nth [OF dfs [unfolded dowsnscale_factor_of_def] this]
      show ?thesis using that len_ms by (auto split: if_splits)
    qed
    show ?thesis
      by (intro exI [of _ r] conjI r0) (auto simp: list_all2_conv_all_nth len_dfs m [symmetric] d)
  qed
qed



lemma cube_le_imp_le:
  fixes a b :: real
  assumes "a ^ 3 \<le> b ^ 3" and "0 \<le> b"
  shows "a \<le> b"
  using assms power_le_imp_le_base [of a 2 b] by (simp add: numeral_3_eq_3)

lemma cube_less_imp_less:
  fixes a b :: real
  assumes "a ^ 3 < b ^ 3" and "0 \<le> b"
  shows "a < b"
  using assms by (rule power_less_imp_less_base)

text \<open>
  The cap \<open>int(o_s / dim_ratio)\<close> under the cube root of \<open>x\<close> is the integer \<open>m\<close>
  with \<open>x * m ^ 3 \<le> o_s ^ 3 < x * (m + 1) ^ 3\<close>.
\<close>

lemma py_int_div_cbrt:
  assumes x: "0 < x" and m: "0 \<le> m"
    and lo: "x * real_of_int m ^ 3 \<le> real o_s ^ 3"
    and hi: "real o_s ^ 3 < x * (real_of_int m + 1) ^ 3"
  shows "py_int (real o_s / root 3 x) = m"
proof -
  let ?r = "root 3 x"
  have r: "0 < ?r" using x by simp
  have "?r ^ 3 = x" using x real_root_pow_pos2 [of 3 x] by simp
  then have r3: "(c * ?r) ^ 3 = x * c ^ 3" for c
    by (simp add: power_mult_distrib mult.commute)
  have "(real_of_int m * ?r) ^ 3 \<le> real o_s ^ 3"
    using lo by (simp only: r3)
  then have a: "real_of_int m * ?r \<le> real o_s"
    by (rule cube_le_imp_le) simp
  have "real o_s ^ 3 < ((real_of_int m + 1) * ?r) ^ 3"
    using hi by (simp only: r3)
  moreover have "0 \<le> (real_of_int m + 1) * ?r" using m r by simp
  ultimately have b: "real o_s < (real_of_int m + 1) * ?r"
    by (rule cube_less_imp_less)
  from a r have "real_of_int m \<le> real o_s / ?r" by (simp add: le_divide_eq)
  moreover from b r have "real o_s / ?r < real_of_int m + 1" by (simp add: divide_less_eq)
  ultimately have "\<lfloor>real o_s / ?r\<rfloor> = m" by (simp add: floor_unique)
  moreover have "0 \<le> real o_s / ?r" using r by simp
  ultimately show ?thesis by (simp add: py_int_def)
qed


subsection \<open>Shapes after resampling\<close>

lemma getitem_steps_shape:
  assumes "getitem_steps a steps = Inr sub"
  shows "length steps \<le> length (shape a) \<and> 0 \<notin> set steps
    \<and> shape sub = map2 slice_len (shape a) steps @ drop (length steps) (shape a)"
  using assms by (auto simp: getitem_steps_def Let_def split: if_splits)

lemma getitem_steps_shape_le:
  assumes "getitem_steps a steps = Inr sub"
  shows "list_all2 (\<le>) (shape sub) (shape a)"
proof -
  note s = getitem_steps_shape [OF assms]
  have len: "length (shape sub) = length (shape a)" using s by simp
  have "shape sub ! i \<le> shape a ! i" if "i < length (shape a)" for i
  proof (cases "i < length steps")
    case True
    then have "steps ! i \<noteq> 0" using s by (metis nth_mem)
    with True that s show ?thesis
      by (simp add: nth_append slice_len_le)
  next
    case False
    with that s show ?thesis by (simp add: nth_append)
  qed
  with len show ?thesis by (simp add: list_all2_conv_all_nth)
qed

lemma zoom_axis_le:
  assumes "m \<noteq> 0" and "d = real_of_int (max (int o_s) m) / real_of_int m" and "d \<noteq> 0"
  shows "real o_s * (1 / d) \<le> real o_s"
proof (cases "0 < m")
  case True
  then have "1 \<le> d" using assms(2) by (simp add: le_divide_eq)
  then have "1 / d \<le> 1" by simp
  then have "real o_s * (1 / d) \<le> real o_s * 1"
    by (intro mult_left_mono) simp_all
  then show ?thesis by simp
next
  case False
  with assms(1) have neg: "m < 0" by simp
  then have "d = real o_s / real_of_int m" using assms(2) by (simp add: max_def)
  then have "d \<le> 0" using neg by (simp add: divide_nonneg_neg)
  with assms(3) have "1 / d < 0" by simp
  then have "real o_s * (1 / d) \<le> 0"
    by (intro mult_nonneg_nonpos) simp_all
  then show ?thesis by linarith
qed

lemma resample_shape_le:
  assumes r: "resample scipy a dfs = Inr sub"
    and f: "factors self a = Inr dfs"
  shows "list_all2 (\<le>) (shape sub) (shape a)"
proof (cases scipy)
  case None
  with r show ?thesis
    by (auto simp: resample_def strided_def split: if_splits intro: getitem_steps_shape_le)
next
  case (Some z)
  from factors_ratio [OF f] obtain rr where rr: "rr \<noteq> 0"
    and ax: "list_all2 (\<lambda>o_s d_f. py_int (real o_s / rr) \<noteq> 0 \<and>
        d_f = real_of_int (max (int o_s) (py_int (real o_s / rr))) / real_of_int (py_int (real o_s / rr)))
      (shape a) dfs" by blast
  from r Some obtain zoom where
    zoom: "traverse (\<lambda>d_f. if d_f = 0 then Inl ZeroDivisionError else Inr (1 / d_f)) dfs = Inr zoom"
    and sub: "nd_zoom z a zoom = Inr sub"
    by (auto simp: resample_def split: sum.splits)
  have len_dfs: "length dfs = length (shape a)" using ax by (simp add: list_all2_lengthD)
  have len_zoom: "length zoom = length (shape a)" using traverse_length [OF zoom] len_dfs by simp
  have shp: "shape sub = map nat (zoom_shape (shape a) zoom)"
    using sub by (auto simp: nd_zoom_def Let_def split: if_splits)
  have "shape sub ! i \<le> shape a ! i" if i: "i < length (shape a)" for i
  proof -
    have "i < length dfs" using i len_dfs by simp
    from traverse_nth [OF zoom this]
    have z: "dfs ! i \<noteq> 0 \<and> zoom ! i = 1 / dfs ! i" by (auto split: if_splits)
    from list_all2_nthD [OF ax i] z
    have "real (shape a ! i) * (1 / dfs ! i) \<le> real (shape a ! i)"
      by (intro zoom_axis_le [where m = "py_int (real (shape a ! i) / rr)"]) auto
    then have "py_round (real (shape a ! i) * zoom ! i) \<le> int (shape a ! i)"
      using z by (intro py_round_le) simp
    then show ?thesis using i len_zoom by (simp add: shp zoom_shape_def)
  qed
  then show ?thesis using len_zoom by (simp add: list_all2_conv_all_nth shp zoom_shape_def)
qed

subsection \<open>The concrete volumes, evaluated\<close>

lemma factors_vol222: "factors pane_default vol222 = Inr [1, 1, 1]"
proof -
  have dr: "dim_ratio_of pane_default vol222 = Inr (root 3 (1 / 4194304))"
    by (simp add: dim_ratio_of_def nbytes_def vol222_def pane_default_def)
  have m: "py_int (2 / root 3 (1 / 4194304)) = 322"
    using py_int_div_cbrt [of "1 / 4194304" 322 2] by simp
  have ms: "max_shape_of (root 3 (1 / 4194304)) (shape vol222) = Inr [322, 322, 322]"
    by (simp add: max_shape_of_def vol222_def m)
  have df: "dowsnscale_factor_of [322, 322, 322] (shape vol222) = Inr [1, 1, 1]"
    by (simp add: dowsnscale_factor_of_def vol222_def)
  show ?thesis by (simp add: factors_def dr ms df)
qed

lemma factors_vol444: "factors pane_16B vol444 = Inr [2, 2, 2]"
proof -
  have dr: "dim_ratio_of pane_16B vol444 = Inr (root 3 4)"
    by (simp add: dim_ratio_of_def nbytes_def vol444_def pane_16B_def)
  have m: "py_int (4 / root 3 4) = 2"
    using py_int_div_cbrt [of 4 2 4] by simp
  have ms: "max_shape_of (root 3 4) (shape vol444) = Inr [2, 2, 2]"
    by (simp add: max_shape_of_def vol444_def m)
  have df: "dowsnscale_factor_of [2, 2, 2] (shape vol444) = Inr [2, 2, 2]"
    by (simp add: dowsnscale_factor_of_def vol444_def)
  show ?thesis by (simp add: factors_def dr ms df)
qed

lemma subsample_vol444:
  "subsample_array None pane_16B vol444 = Inr (sub444, pane_16B\<lparr>sub_spacing := [3, 3, 3]\<rparr>)"
proof -
  have r: "resample None vol444 [2, 2, 2] = Inr sub444"
    by (simp add: resample_def strided_def getitem_steps_def slice_len_def slice_start_def
        sub444_def vol444_def)
  have sp: "respace (extent_of (shape vol444) (spacing pane_16B)) (shape sub444) = Inr [3, 3, 3]"
    by (simp add: respace_def extent_of_def sub444_def vol444_def pane_16B_def)
  show ?thesis
    by (simp add: subsample_array_def factors_vol444 r sp)
qed

lemma nearest_vol444: "nearest vol444 [1 / 2, 1 / 2, 1 / 2] [2, 2, 2] = [0, 2, 8, 10, 32, 34, 40, 42]"
  by code_simp

lemma zoom_vol444:
  "subsample_array (Some nearest) pane_16B vol444 = Inr (zoomed444, pane_16B\<lparr>sub_spacing := [3, 3, 3]\<rparr>)"
proof -
  have s: "zoom_shape [4, 4, 4] [1 / 2, 1 / 2, 1 / 2] = [2, 2, 2]"
    by (simp add: zoom_shape_def py_round_def)
  have r: "resample (Some nearest) vol444 [2, 2, 2] = Inr zoomed444"
    using nearest_vol444 s by (simp add: resample_def nd_zoom_def zoomed444_def) (simp add: vol444_def)
  have sp: "respace (extent_of (shape vol444) (spacing pane_16B)) (shape zoomed444) = Inr [3, 3, 3]"
    by (simp add: respace_def extent_of_def zoomed444_def vol444_def pane_16B_def)
  show ?thesis
    by (simp add: subsample_array_def factors_vol444 r sp)
qed

lemma factors_vol512: "factors pane_64MB vol512 = Inr [512 / 317, 512 / 317, 512 / 317]"
proof -
  have dr: "dim_ratio_of pane_64MB vol512 = Inr (root 3 (65536 / 15625))"
    by (simp add: dim_ratio_of_def nbytes_def vol512_def pane_64MB_def)
  have m: "py_int (512 / root 3 (65536 / 15625)) = 317"
    using py_int_div_cbrt [of "65536 / 15625" 317 512] by simp
  have ms: "max_shape_of (root 3 (65536 / 15625)) (shape vol512) = Inr [317, 317, 317]"
    by (simp add: max_shape_of_def vol512_def m)
  have df: "dowsnscale_factor_of [317, 317, 317] (shape vol512)
      = Inr [512 / 317, 512 / 317, 512 / 317]"
    by (simp add: dowsnscale_factor_of_def vol512_def)
  show ?thesis by (simp add: factors_def dr ms df)
qed

lemma ceil_512_317: "\<lceil>512 / 317 :: real\<rceil> = 2"
  by (simp add: ceiling_eq_iff)

lemma subsample_vol512:
  "subsample_array None pane_64MB vol512
     = Inr (sub512, pane_64MB\<lparr>sub_spacing := [511 / 255, 511 / 255, 511 / 255]\<rparr>)"
proof -
  have r: "resample None vol512 [512 / 317, 512 / 317, 512 / 317] = Inr sub512"
    by (simp add: resample_def strided_def getitem_steps_def slice_len_def slice_start_def
        sub512_def vol512_def ceil_512_317)
  have sp: "respace (extent_of (shape vol512) (spacing pane_64MB)) (shape sub512)
      = Inr [511 / 255, 511 / 255, 511 / 255]"
    by (simp add: respace_def extent_of_def sub512_def vol512_def pane_64MB_def)
  have c: "\<exists>d_f \<in> set [512 / 317, 512 / 317, 512 / 317 :: real]. 1 < d_f"
    by (rule bexI [of _ "512 / 317"]) simp_all
  show ?thesis
    by (simp only: subsample_array_def Let_def factors_vol512 sum.case c if_True r sp)
qed

lemma zoom_vol512:
  "map_sum id (\<lambda>(sub, self'). (shape sub, sub_spacing self'))
       (subsample_array (Some nearest) pane_64MB vol512)
     = Inr ([317, 317, 317], [511 / 316, 511 / 316, 511 / 316])"
proof -
  have s: "zoom_shape [512, 512, 512] [317 / 512, 317 / 512, 317 / 512] = [317, 317, 317]"
    by (simp add: zoom_shape_def py_round_def)
  obtain sub where r: "resample (Some nearest) vol512 [512 / 317, 512 / 317, 512 / 317] = Inr sub"
    and shp: "shape sub = [317, 317, 317]"
    using s by (simp add: resample_def nd_zoom_def vol512_def)
  have sp: "respace (extent_of (shape vol512) (spacing pane_64MB)) (shape sub)
      = Inr [511 / 316, 511 / 316, 511 / 316]"
    by (simp add: respace_def extent_of_def shp vol512_def pane_64MB_def)
  have c: "\<exists>d_f \<in> set [512 / 317, 512 / 317, 512 / 317 :: real]. 1 < d_f"
    by (rule bexI [of _ "512 / 317"]) simp_all
  have "subsample_array (Some nearest) pane_64MB vol512
      = Inr (sub, pane_64MB\<lparr>sub_spacing := [511 / 316, 511 / 316, 511 / 316]\<rparr>)"
    by (simp only: subsample_array_def Let_def factors_vol512 sum.case c if_True r sp)
  then show ?thesis by (simp add: shp)
qed

lemma factors_vol288: "factors pane_32B vol288 = Inr [2, 8 / 5, 8 / 5]"
proof -
  have dr: "dim_ratio_of pane_32B vol288 = Inr (root 3 4)"
    by (simp add: dim_ratio_of_def nbytes_def vol288_def pane_32B_def)
  have m: "py_int (2 / root 3 4) = 1" "py_int (8 / root 3 4) = 5"
    using py_int_div_cbrt [of 4 1 2] py_int_div_cbrt [of 4 5 8] by simp_all
  have ms: "max_shape_of (root 3 4) (shape vol288) = Inr [1, 5, 5]"
    by (simp add: max_shape_of_def vol288_def m)
  have df: "dowsnscale_factor_of [1, 5, 5] (shape vol288) = Inr [2, 8 / 5, 8 / 5]"
    by (simp add: dowsnscale_factor_of_def vol288_def)
  show ?thesis by (simp add: factors_def dr ms df)
qed

text \<open>On the thin volume the spacing of the first axis divides by zero, without scipy and with it.\<close>

lemma subsample_vol288: "subsample_array None pane_32B vol288 = Inl ZeroDivisionError"
proof -
  let ?sub = "vol288\<lparr>shape := [1, 4, 4], strides := [128, 16, 2]\<rparr>"
  have c8: "\<lceil>8 / 5 :: real\<rceil> = 2" by (simp add: ceiling_eq_iff)
  have r: "resample None vol288 [2, 8 / 5, 8 / 5] = Inr ?sub"
    by (simp add: resample_def strided_def getitem_steps_def slice_len_def slice_start_def
        vol288_def c8)
  have sp: "respace (extent_of (shape vol288) (spacing pane_32B)) (shape ?sub)
      = Inl ZeroDivisionError"
    by (simp add: respace_def extent_of_def vol288_def pane_32B_def)
  have c: "\<exists>d_f \<in> set [2, 8 / 5, 8 / 5 :: real]. 1 < d_f" by simp
  show ?thesis
    by (simp only: subsample_array_def Let_def factors_vol288 sum.case c if_True r sp)
qed

lemma zoom_vol288: "subsample_array (Some nearest) pane_32B vol288 = Inl ZeroDivisionError"
proof -
  have s: "zoom_shape [2, 8, 8] [1 / 2, 5 / 8, 5 / 8] = [1, 5, 5]"
    by (simp add: zoom_shape_def py_round_def)
  obtain sub where r: "resample (Some nearest) vol288 [2, 8 / 5, 8 / 5] = Inr sub"
    and shp: "shape sub = [1, 5, 5]"
    using s by (simp add: resample_def nd_zoom_def vol288_def)
  have sp: "respace (extent_of (shape vol288) (spacing pane_32B)) (shape sub)
      = Inl ZeroDivisionError"
    by (simp add: respace_def extent_of_def shp vol288_def pane_32B_def)
  have c: "\<exists>d_f \<in> set [2, 8 / 5, 8 / 5 :: real]. 1 < d_f" by simp
  show ?thesis
    by (simp only: subsample_array_def Let_def factors_vol288 sum.case c if_True r sp)
qed

subsection \<open>Within the budget\<close>

text \<open>
  C3. When the factors are computed and none exceeds 1, the subsampler
  returns the input array itself and stores the pane's own spacing as the
  sub-spacing, whether or not scipy is there.
\<close>

theorem subsample_identity_within_budget:
  assumes "factors self a = Inr dfs" and "\<forall>d_f \<in> set dfs. d_f \<le> 1"
  shows "subsample_array scipy self a = Inr (a, self\<lparr>sub_spacing := spacing self\<rparr>)"
  using assms by (auto simp: subsample_array_def)

theorem subsample_identity_within_budget_witness:
  "factors pane_default vol222 = Inr [1, 1, 1]
   \<and> subsample_array None pane_default vol222 = Inr (vol222, pane_default\<lparr>sub_spacing := spacing pane_default\<rparr>)"
  using subsample_identity_within_budget [OF factors_vol222, of None] factors_vol222 by simp

subsection \<open>Never more samples than the input\<close>

text \<open>
  C2. Whenever the subsampler returns an array, each of its axes has at most
  as many samples as the same axis of the input: with scipy or without it,
  over the budget or within it.
\<close>

theorem subsample_never_upscales:
  assumes "subsample_array scipy self a = Inr (sub, self')"
  shows "list_all2 (\<le>) (shape sub) (shape a)"
proof -
  from assms obtain dfs where f: "factors self a = Inr dfs"
    by (auto simp: subsample_array_def Let_def split: sum.splits)
  show ?thesis
  proof (cases "\<exists>d_f \<in> set dfs. 1 < d_f")
    case True
    with assms f obtain r: "resample scipy a dfs = Inr sub"
      by (auto simp: subsample_array_def Let_def split: sum.splits)
    then show ?thesis using f by (rule resample_shape_le)
  next
    case False
    with assms f have "sub = a" by (auto simp: subsample_array_def Let_def)
    then show ?thesis by (simp add: list_all2_refl)
  qed
qed

theorem subsample_never_upscales_witness:
  "subsample_array None pane_16B vol444 = Inr (sub444, pane_16B\<lparr>sub_spacing := [3, 3, 3]\<rparr>)
   \<and> list_all2 (\<le>) (shape sub444) (shape vol444)
   \<and> subsample_array (Some nearest) pane_16B vol444
       = Inr (zoomed444, pane_16B\<lparr>sub_spacing := [3, 3, 3]\<rparr>)
   \<and> list_all2 (\<le>) (shape zoomed444) (shape vol444)"
  using subsample_never_upscales [OF subsample_vol444] subsample_vol444
    subsample_never_upscales [OF zoom_vol444] zoom_vol444
  by simp

subsection \<open>The spacing after a reduction\<close>

text \<open>
  C1, as the code has it. The extent of an axis is measured from the first to
  the last sample, \<open>(count - 1) * spacing\<close>, and the new spacing is that extent
  divided by the new count minus one. So whenever a reduction returns, on
  every axis the new spacing times (new count - 1) is the old spacing times
  (old count - 1), and no reduced axis has a single sample.
\<close>

theorem subsample_preserves_extent:
  assumes "subsample_array scipy self a = Inr (sub, self')"
    and "factors self a = Inr dfs" and "\<exists>d_f \<in> set dfs. 1 < d_f"
  shows "length (sub_spacing self') = min (length (shape a)) (length (spacing self))
    \<and> (\<forall>i < length (sub_spacing self').
          shape sub ! i \<noteq> 1
        \<and> sub_spacing self' ! i = extent_of (shape a) (spacing self) ! i / (real (shape sub ! i) - 1)
        \<and> sub_spacing self' ! i * (real (shape sub ! i) - 1) = (real (shape a ! i) - 1) * spacing self ! i)"
proof -
  let ?extent = "extent_of (shape a) (spacing self)"
  from assms obtain sp where r: "resample scipy a dfs = Inr sub"
    and sp: "respace ?extent (shape sub) = Inr sp"
    and self': "self' = self\<lparr>sub_spacing := sp\<rparr>"
    by (auto simp: subsample_array_def Let_def split: sum.splits)
  have len_sub: "length (shape sub) = length (shape a)"
    using resample_shape_le [OF r assms(2)] by (simp add: list_all2_lengthD)
  have len_ext: "length ?extent = min (length (shape a)) (length (spacing self))"
    by (simp add: extent_of_def)
  have len_sp: "length sp = min (length (shape a)) (length (spacing self))"
    using traverse_length [OF sp [unfolded respace_def]] len_sub len_ext by simp
  have ax: "shape sub ! i \<noteq> 1 \<and> sp ! i = ?extent ! i / (real (shape sub ! i) - 1)"
    if "i < length sp" for i
  proof -
    have "i < length (zip ?extent (shape sub))" using that len_sp len_sub len_ext by simp
    from traverse_nth [OF sp [unfolded respace_def] this] this
    show ?thesis by (auto split: if_splits)
  qed
  have ext: "?extent ! i = (real (shape a ! i) - 1) * spacing self ! i" if "i < length sp" for i
    using that len_sp by (simp add: extent_of_def)
  have prod: "sp ! i * (real (shape sub ! i) - 1) = (real (shape a ! i) - 1) * spacing self ! i"
    if "i < length sp" for i
  proof -
    from ax [OF that] have "real (shape sub ! i) - 1 \<noteq> 0" by simp
    then show ?thesis using ax [OF that] ext [OF that] by simp
  qed
  show ?thesis using len_sp ax prod by (simp add: self')
qed

theorem subsample_preserves_extent_witness:
  "subsample_array None pane_16B vol444 = Inr (sub444, pane_16B\<lparr>sub_spacing := [3, 3, 3]\<rparr>)
   \<and> factors pane_16B vol444 = Inr [2, 2, 2]
   \<and> length (sub_spacing (pane_16B\<lparr>sub_spacing := [3, 3, 3]\<rparr>)) = 3
   \<and> sub_spacing (pane_16B\<lparr>sub_spacing := [3, 3, 3]\<rparr>) ! 2 * (real (shape sub444 ! 2) - 1)
       = (real (shape vol444 ! 2) - 1) * spacing pane_16B ! 2"
proof -
  have c: "\<exists>d_f \<in> set [2, 2, 2 :: real]. 1 < d_f" by simp
  show ?thesis
    using subsample_preserves_extent [OF subsample_vol444 factors_vol444 c]
      subsample_vol444 factors_vol444
    by (simp add: sub444_def vol444_def pane_16B_def)
qed

text \<open>
  C1, as stated, on the specification's own volume. After the strided
  reduction to 256 samples the reduced spacing times the reduced sample count
  is 130816/255 (about 513.004) on each axis; after the zoom to 317 samples it
  is 161987/316 (about 512.617). Neither is the 512 of spacing times count, nor
  the 511 the code calls the extent.
\<close>

theorem subsample_extent_by_count_counterexample:
  "subsample_array None pane_64MB vol512
     = Inr (sub512, pane_64MB\<lparr>sub_spacing := [511 / 255, 511 / 255, 511 / 255]\<rparr>)
   \<and> extent_by_count [511 / 255, 511 / 255, 511 / 255] (shape sub512)
       = [130816 / 255, 130816 / 255, 130816 / 255]
   \<and> map_sum id (\<lambda>(sub, self'). (shape sub, sub_spacing self'))
         (subsample_array (Some nearest) pane_64MB vol512)
       = Inr ([317, 317, 317], [511 / 316, 511 / 316, 511 / 316])
   \<and> extent_by_count [511 / 316, 511 / 316, 511 / 316] [317, 317, 317]
       = [161987 / 316, 161987 / 316, 161987 / 316]
   \<and> extent_by_count (spacing pane_64MB) (shape vol512) = [512, 512, 512]
   \<and> extent_of (shape vol512) (spacing pane_64MB) = [511, 511, 511]
   \<and> extent_by_count [511 / 255, 511 / 255, 511 / 255] (shape sub512)
       \<noteq> extent_by_count (spacing pane_64MB) (shape vol512)
   \<and> extent_by_count [511 / 255, 511 / 255, 511 / 255] (shape sub512)
       \<noteq> extent_of (shape vol512) (spacing pane_64MB)
   \<and> extent_by_count [511 / 316, 511 / 316, 511 / 316] [317, 317, 317]
       \<noteq> extent_by_count (spacing pane_64MB) (shape vol512)
   \<and> extent_by_count [511 / 316, 511 / 316, 511 / 316] [317, 317, 317]
       \<noteq> extent_of (shape vol512) (spacing pane_64MB)"
proof -
  have e1: "extent_by_count [511 / 255, 511 / 255, 511 / 255] (shape sub512)
      = [130816 / 255, 130816 / 255, 130816 / 255]"
    by (simp add: extent_by_count_def sub512_def vol512_def)
  have e2: "extent_by_count (spacing pane_64MB) (shape vol512) = [512, 512, 512]"
    by (simp add: extent_by_count_def vol512_def pane_64MB_def)
  have e3: "extent_of (shape vol512) (spacing pane_64MB) = [511, 511, 511]"
    by (simp add: extent_of_def vol512_def pane_64MB_def)
  have e4: "extent_by_count [511 / 316, 511 / 316, 511 / 316] [317, 317, 317]
      = [161987 / 316, 161987 / 316, 161987 / 316]"
    by (simp add: extent_by_count_def)
  show ?thesis
    unfolding e1 e2 e3 e4 using subsample_vol512 zoom_vol512 by simp
qed

subsection \<open>Without scipy\<close>



section \<open>Properties of the volume transfer record\<close>

lemma indices_empty_iff: "indices shp = [] \<longleftrightarrow> 0 \<in> set shp"
  by (induction shp) auto

lemma ravel_C_empty_iff: "ravel C a = [] \<longleftrightarrow> 0 \<in> set (shape a)"
  by (simp add: ravel_def indices_empty_iff)

text \<open>The record is built exactly for the arrays that have an element.\<close>

lemma volume_from_array_returns:
  "(\<exists>v. volume_from_array tobytes self a = Inr v) \<longleftrightarrow> 0 \<notin> set (shape a)"
  "volume_from_array tobytes self a = Inl ValueError \<longleftrightarrow> 0 \<in> set (shape a)"
  using ravel_C_empty_iff [of a]
  by (auto simp: volume_from_array_def amin_def amax_def Let_def split: list.splits)

text \<open>The two orders of a 3-dimensional array, written out.\<close>

lemma ravel_F_3d:
  assumes "shape a = [n0, n1, n2]"
  shows "ravel F a
    = concat (map (\<lambda>k. concat (map (\<lambda>j. map (\<lambda>i. item a [i, j, k]) [0..<n0]) [0..<n1])) [0..<n2])"
  using assms by (simp add: ravel_def map_concat comp_def)

lemma ravel_C_3d:
  assumes "shape a = [n0, n1, n2]"
  shows "ravel C a
    = concat (map (\<lambda>i. concat (map (\<lambda>j. map (\<lambda>k. item a [i, j, k]) [0..<n2]) [0..<n1])) [0..<n0])"
  using assms by (simp add: ravel_def map_concat comp_def)


lemma ravel_vol222:
  "ravel C vol222 = [0, 1, 2, 3, 4, 5, 6, 7]" "ravel F vol222 = [0, 4, 2, 6, 1, 5, 3, 7]"
  by code_simp+

lemma ravel_vol222F:
  "ravel C vol222F = [0, 4, 2, 6, 1, 5, 3, 7]" "ravel F vol222F = [0, 1, 2, 3, 4, 5, 6, 7]"
  by code_simp+


lemma b64_a: "base64encode (concat (map uint8_bytes [0, 1, 2, 3, 4, 5, 6, 7])) = ''AAECAwQFBgc=''"
  by code_simp




section \<open>Properties of the colour mappers\<close>

lemma hex_one_digit: "n < 16 \<Longrightarrow> hex n = [hexchars ! n]"
  by (subst hex.simps) simp

lemma hex_two_digits:
  assumes "16 \<le> n" and "n < 256"
  shows "hex n = [hexchars ! (n div 16), hexchars ! (n mod 16)]"
proof -
  have "n div 16 < 16" using assms(2) by simp
  then have "hex (n div 16) = [hexchars ! (n div 16)]" by (rule hex_one_digit)
  then show ?thesis using assms(1) by (subst hex.simps) simp
qed

lemma format_02x_nat:
  assumes "n < 256"
  shows "format_02x_int (int n) = [hexchars ! (n div 16), hexchars ! (n mod 16)]"
proof (cases "n < 16")
  case True
  then show ?thesis
    by (simp add: format_02x_int_def hex_one_digit hexchars_def)
next
  case False
  then show ?thesis
    using assms by (simp add: format_02x_int_def hex_two_digits)
qed

lemma format_02x_byte:
  "format_02x_int (uint (c :: 8 word)) = [hexchars ! (unat c div 16), hexchars ! (unat c mod 16)]"
proof -
  have "unat c < 2 ^ LENGTH(8)" by (rule unsigned_less)
  then have "unat c < 256" by simp
  from format_02x_nat [OF this] show ?thesis by simp
qed

lemma rgb2hex_bytes:
  "rgb2hex (PyInt (uint r)) (PyInt (uint g)) (PyInt (uint b)) = Inr (hex_color r g b)"
  by (simp add: rgb2hex_def hex_color_def format_02x_byte)

lemma reshape4_palette:
  "reshape4 t = Inr rows \<Longrightarrow>
     length t mod 4 = 0 \<and> traverse rgb2hex_row (map (take 3) rows) = Inr (palette_of_table t)"
proof (induction t arbitrary: rows rule: reshape4.induct)
  case 1
  then show ?case by (simp add: palette_of_table_def)
next
  case (2 r g b a rest)
  from "2.prems" obtain rows' where rows': "reshape4 rest = Inr rows'"
    and rows: "rows = [r, g, b, a] # rows'"
    by (auto split: sum.splits)
  from "2.IH" [OF rows'] have IH: "length rest mod 4 = 0"
    "traverse rgb2hex_row (map (take 3) rows') = Inr (palette_of_table rest)" by simp_all
  have len: "length (r # g # b # a # rest) div 4 = Suc (length rest div 4)" by simp
  have shift: "(r # g # b # a # rest) ! (4 * Suc i + k) = rest ! (4 * i + k)" for i k
    by (simp add: eval_nat_numeral)
  have "map (\<lambda>i. hex_color ((r # g # b # a # rest) ! (4 * i)) ((r # g # b # a # rest) ! (4 * i + 1))
               ((r # g # b # a # rest) ! (4 * i + 2))) [Suc 0..<Suc (length rest div 4)]
      = map (\<lambda>i. hex_color (rest ! (4 * i)) (rest ! (4 * i + 1)) (rest ! (4 * i + 2)))
          [0..<length rest div 4]"
    unfolding map_Suc_upt [symmetric] map_map comp_def
    using shift [of _ 0] shift [of _ 1] shift [of _ 2] by simp
  then have "palette_of_table (r # g # b # a # rest) = hex_color r g b # palette_of_table rest"
    unfolding palette_of_table_def len
    by (simp add: upt_conv_Cons del: upt_Suc)
  with IH show ?case by (simp add: rows rgb2hex_bytes)
qed simp_all

lemma color_mapper_Inr:
  assumes "color_mapper title lookup = Inr cmap"
  shows "\<exists>lut. lookup = Some lut \<and> length (GetTable lut) mod 4 = 0
    \<and> palette cmap = palette_of_table (GetTable lut)
    \<and> low cmap = fst (GetTableRange lut) \<and> high cmap = snd (GetTableRange lut)
    \<and> name cmap = title"
  using assms
  by (auto simp: color_mapper_def split: option.splits sum.splits dest!: reshape4_palette)

text \<open>The colour mappers are built whenever every scalar bar has a lookup table of whole rows.\<close>

lemma reshape4_returns: "length t mod 4 = 0 \<Longrightarrow> \<exists>rows. reshape4 t = Inr rows"
proof (induction t rule: reshape4.induct)
  case (2 r g b a rest)
  then have "length rest mod 4 = 0" by simp
  with 2 show ?case by auto
qed simp_all

lemma color_mapper_returns:
  assumes "length (GetTable lut) mod 4 = 0"
  shows "\<exists>cmap. color_mapper title (Some lut) = Inr cmap"
proof -
  from reshape4_returns [OF assms] obtain rows where r: "reshape4 (GetTable lut) = Inr rows" ..
  from reshape4_palette [OF r] show ?thesis by (simp add: color_mapper_def r)
qed

lemma get_color_mappers_returns:
  assumes "\<forall>(title, lookup) \<in> set (scalar_bars view_props).
      \<exists>lut. lookup = Some lut \<and> length (GetTable lut) mod 4 = 0"
  shows "\<exists>cmaps. get_color_mappers view_props = Inr cmaps"
  using assms
proof (induction view_props rule: get_color_mappers.induct)
  case (2 title lookup view_props)
  from "2.prems" obtain lut where lut: "lookup = Some lut" "length (GetTable lut) mod 4 = 0"
    by auto
  from color_mapper_returns [OF lut(2)] obtain cmap where cm: "color_mapper title lookup = Inr cmap"
    unfolding lut(1) ..
  from "2.prems" have "\<forall>(title, lookup) \<in> set (scalar_bars view_props).
      \<exists>lut. lookup = Some lut \<and> length (GetTable lut) mod 4 = 0" by simp
  from "2.IH" [OF cm this] obtain cmaps where "get_color_mappers view_props = Inr cmaps" ..
  with cm show ?case by simp
qed simp_all

text \<open>
  C8. When \<open>get_color_mappers\<close> returns, its colour mappers are those of the
  scalar bars among the view props, in order: the palette of each is its lookup
  table's RGBA table with one \<open>#rrggbb\<close> entry per row and the alpha left out,
  low and high are the table range, and the name is the bar's title.
\<close>

theorem color_mappers_of_scalar_bars:
  assumes "get_color_mappers view_props = Inr cmaps"
  shows "list_all2 (\<lambda>(title, lookup) cmap.
      \<exists>lut. lookup = Some lut
        \<and> palette cmap = palette_of_table (GetTable lut)
        \<and> length (palette cmap) = length (GetTable lut) div 4
        \<and> low cmap = fst (GetTableRange lut) \<and> high cmap = snd (GetTableRange lut)
        \<and> name cmap = title)
    (scalar_bars view_props) cmaps"
  using assms
proof (induction view_props arbitrary: cmaps rule: get_color_mappers.induct)
  case 1
  then show ?case by simp
next
  case (2 title lut view_props)
  from "2.prems" obtain cmap rest where cm: "color_mapper title lut = Inr cmap"
    and rest: "get_color_mappers view_props = Inr rest" and cmaps: "cmaps = cmap # rest"
    by (auto split: sum.splits)
  from color_mapper_Inr [OF cm] "2.IH" [OF cm rest] show ?case
    by (auto simp: cmaps palette_of_table_def)
next
  case (3 view_props)
  then show ?case by simp
qed

lemma color_mappers_props2:
  "get_color_mappers props2
     = Inr [\<lparr>low = 0, high = 1, name = ''T'', palette = [''#ff0000'', ''#008010'']\<rparr>]"
  by code_simp

lemma palette_lut2: "palette_of_table (GetTable lut2) = [''#ff0000'', ''#008010'']"
  by code_simp

theorem color_mappers_of_scalar_bars_witness:
  "get_color_mappers props2
     = Inr [\<lparr>low = 0, high = 1, name = ''T'', palette = [''#ff0000'', ''#008010'']\<rparr>]
   \<and> scalar_bars props2 = [(''T'', Some lut2)]
   \<and> palette_of_table (GetTable lut2) = [''#ff0000'', ''#008010'']
   \<and> GetTableRange lut2 = (0, 1)"
  using color_mappers_of_scalar_bars [OF color_mappers_props2] color_mappers_props2 palette_lut2
  by (simp add: props2_def lut2_def)

section \<open>Properties of the serialization\<close>

lemma getitem_setitem:
  "setitem obj key v = Inr obj' \<Longrightarrow> getitem obj' key = Inr v"
  by (cases obj) (auto simp: update_conv')

text \<open>The serialization returns whenever the walk gives a dictionary with a dictionary of properties.\<close>

lemma serialize_ren_win_returns:
  assumes "fst (serializeInstance rws PNone ren_win (getReferenceId rws ctx ren_win) ctx 0) = PDict d"
    and "map_of d ''properties'' = Some (PDict props)"
  shows "\<exists>scene arrays ctx'. serialize_ren_win rws ren_win ctx exclude_arrays = Inr (scene, arrays, ctx')"
  using assms by (auto simp: serialize_ren_win_def Let_def split: prod.splits)

text \<open>
  C5. Whatever the walk returns for the window and however many view props it
  has, the scene that \<open>_serialize_ren_win\<close> returns has \<open>numberOfLayers\<close> equal
  to 2 among its top-level properties.
\<close>

theorem scene_has_two_layers:
  assumes "serialize_ren_win rws ren_win context exclude_arrays = Inr (scene, arrays, context')"
  shows "\<exists>properties. getitem scene ''properties'' = Inr properties
    \<and> getitem properties ''numberOfLayers'' = Inr (PInt 2)"
  using assms
  by (auto simp: serialize_ren_win_def Let_def split: prod.splits sum.splits
      dest: getitem_setitem)

lemma serialize_ren_win_arrays:
  assumes "serialize_ren_win rws ren_win context exclude_arrays = Inr (scene, arrays, context')"
  shows "context' = snd (serializeInstance rws PNone ren_win (getReferenceId rws context ren_win) context 0)"
    and "arrays = map (\<lambda>name. (name, getCachedDataArray rws context' name False True))
           (filter (\<lambda>name. name \<notin> set (case exclude_arrays of None \<Rightarrow> [] | Some names \<Rightarrow> names))
              (map fst (dataArrayCache context')))"
  using assms
  by (auto simp: serialize_ren_win_def Let_def split: prod.splits sum.splits)

text \<open>
  C6. The payloads returned are those of exactly the cached keys that are not
  excluded, each the payload of its key. So when a second serialization
  excludes what the first excluded and returned, and its walk caches no key
  the first did not have, it returns no payload.
\<close>

theorem incremental_arrays:
  fixes rws :: "('w, 'a) rws"
  shows "(\<forall>ren_win context exclude_arrays scene arrays context'.
            serialize_ren_win rws ren_win context exclude_arrays = Inr (scene, arrays, context')
            \<longrightarrow> set (map fst arrays)
                  = set (map fst (dataArrayCache context'))
                    - set (case exclude_arrays of None \<Rightarrow> [] | Some names \<Rightarrow> names)
                \<and> (\<forall>name \<in> set (map fst arrays).
                      map_of arrays name = Some (getCachedDataArray rws context' name False True)))
    \<and> (\<forall>ren_win context exclude_arrays scene1 arrays1 context1 names scene2 arrays2 context2.
            serialize_ren_win rws ren_win context exclude_arrays = Inr (scene1, arrays1, context1)
          \<and> set (case exclude_arrays of None \<Rightarrow> [] | Some names \<Rightarrow> names) \<union> set (map fst arrays1)
              \<subseteq> set names
          \<and> serialize_ren_win rws ren_win context1 (Some names) = Inr (scene2, arrays2, context2)
          \<and> set (map fst (dataArrayCache context2)) \<subseteq> set (map fst (dataArrayCache context1))
            \<longrightarrow> arrays2 = [])"
proof (intro conjI allI impI)
  fix ren_win :: 'w and ctx :: "'a SynchronizationContext"
    and exclude_arrays scene arrays ctx'
  assume a: "serialize_ren_win rws ren_win ctx exclude_arrays = Inr (scene, arrays, ctx')"
  note arr = serialize_ren_win_arrays(2) [OF a]
  show "set (map fst arrays)
      = set (map fst (dataArrayCache ctx'))
        - set (case exclude_arrays of None \<Rightarrow> [] | Some names \<Rightarrow> names)"
    by (subst arr) (auto simp: comp_def)
  show "\<forall>name \<in> set (map fst arrays).
      map_of arrays name = Some (getCachedDataArray rws ctx' name False True)"
    by (subst (1 2) arr) (auto simp: map_of_map_restrict comp_def restrict_map_def)
next
  fix ren_win :: 'w and ctx :: "'a SynchronizationContext"
    and exclude_arrays scene1 arrays1 ctx1 names scene2 arrays2 ctx2
  assume h: "serialize_ren_win rws ren_win ctx exclude_arrays = Inr (scene1, arrays1, ctx1)
    \<and> set (case exclude_arrays of None \<Rightarrow> [] | Some names \<Rightarrow> names) \<union> set (map fst arrays1)
        \<subseteq> set names
    \<and> serialize_ren_win rws ren_win ctx1 (Some names) = Inr (scene2, arrays2, ctx2)
    \<and> set (map fst (dataArrayCache ctx2)) \<subseteq> set (map fst (dataArrayCache ctx1))"
  then have a1: "serialize_ren_win rws ren_win ctx exclude_arrays = Inr (scene1, arrays1, ctx1)"
    and a2: "serialize_ren_win rws ren_win ctx1 (Some names) = Inr (scene2, arrays2, ctx2)"
    and sub: "set (case exclude_arrays of None \<Rightarrow> [] | Some names \<Rightarrow> names) \<union> set (map fst arrays1)
        \<subseteq> set names"
    and same: "set (map fst (dataArrayCache ctx2)) \<subseteq> set (map fst (dataArrayCache ctx1))"
    by simp_all
  have "set (map fst arrays1)
      = set (map fst (dataArrayCache ctx1))
        - set (case exclude_arrays of None \<Rightarrow> [] | Some names \<Rightarrow> names)"
    by (subst serialize_ren_win_arrays(2) [OF a1]) (auto simp: comp_def)
  with sub same have "set (map fst (dataArrayCache ctx2)) \<subseteq> set names" by blast
  then have "filter (\<lambda>name. name \<notin> set names) (map fst (dataArrayCache ctx2)) = []"
    by (auto simp: filter_empty_conv)
  then show "arrays2 = []"
    by (subst serialize_ren_win_arrays(2) [OF a2]) simp
qed

lemma serialize_win1_first:
  "serialize_ren_win example_rws win1 \<lparr>dataArrayCache = []\<rparr> None
     = Inr (scene1, [(''a1'', ''xyz''), (''b2'', ''uvw'')], ctx1)"
  by code_simp

lemma serialize_win1_again:
  "serialize_ren_win example_rws win1 ctx1 (Some [''a1'', ''b2'']) = Inr (scene1, [], ctx1)"
  by code_simp

theorem scene_has_two_layers_witness:
  "serialize_ren_win example_rws win1 \<lparr>dataArrayCache = []\<rparr> None
     = Inr (scene1, [(''a1'', ''xyz''), (''b2'', ''uvw'')], ctx1)
   \<and> getitem scene1 ''properties'' = Inr (PDict [(''numberOfLayers'', PInt 2)])
   \<and> getitem (PDict [(''numberOfLayers'', PInt 2)]) ''numberOfLayers'' = Inr (PInt 2)"
  using scene_has_two_layers [OF serialize_win1_first] serialize_win1_first
  by (simp add: scene1_def)

theorem incremental_arrays_witness:
  "serialize_ren_win example_rws win1 \<lparr>dataArrayCache = []\<rparr> None
     = Inr (scene1, [(''a1'', ''xyz''), (''b2'', ''uvw'')], ctx1)
   \<and> set (map fst [(''a1'', ''xyz''), (''b2'', ''uvw'')]) = set (map fst (dataArrayCache ctx1)) - set []
   \<and> serialize_ren_win example_rws win1 ctx1 (Some [''a1'', ''b2'']) = Inr (scene1, [], ctx1)"
proof -
  note ia = incremental_arrays [of example_rws]
  from ia have "set (map fst [(''a1'', ''xyz''), (''b2'', ''uvw'')])
      = set (map fst (dataArrayCache ctx1)) - set (case None of None \<Rightarrow> [] | Some names \<Rightarrow> names)"
    using serialize_win1_first by blast
  then show ?thesis using serialize_win1_first serialize_win1_again by simp
qed

section \<open>Properties of the export\<close>








section \<open>Properties of the identity registry\<close>

lemma registry_ok_new: "registry_ok new_registry"
  by (simp add: registry_ok_def new_registry_def)

lemma getOrAssignId_ok:
  assumes ok: "registry_ok reg" and call: "getOrAssignId obj reg = (i, reg')"
  shows "registry_ok reg' \<and> assigned reg' obj = Some i
    \<and> (\<forall>obj' j. assigned reg obj' = Some j \<longrightarrow> assigned reg' obj' = Some j)"
proof (cases "assigned reg obj")
  case (Some k)
  with call have "i = k" "reg' = reg" by (simp_all add: getOrAssignId_def)
  with ok Some show ?thesis by simp
next
  case None
  with call have i: "i = counter reg"
    and reg': "reg' = reg\<lparr>assigned := (assigned reg)(obj \<mapsto> counter reg), counter := counter reg + 1\<rparr>"
    by (auto simp: getOrAssignId_def)
  from ok have below: "\<And>obj' j. assigned reg obj' = Some j \<Longrightarrow> j < counter reg"
    and inj: "\<And>o1 o2 j. assigned reg o1 = Some j \<Longrightarrow> assigned reg o2 = Some j \<Longrightarrow> o1 = o2"
    by (auto simp: registry_ok_def)
  have "registry_ok reg'"
    unfolding registry_ok_def reg'
    using below inj by (auto simp: less_Suc_eq split: if_splits dest: below)
  moreover have "assigned reg' obj = Some i" by (simp add: reg' i)
  moreover have "assigned reg' obj' = Some j" if "assigned reg obj' = Some j" for obj' j
    using that None by (auto simp: reg')
  ultimately show ?thesis by simp
qed

lemma assign_all_ok:
  assumes "registry_ok reg" and "assign_all objs reg = (ids, reg')"
  shows "registry_ok reg' \<and> length ids = length objs
    \<and> (\<forall>k < length objs. assigned reg' (objs ! k) = Some (ids ! k))
    \<and> (\<forall>obj j. assigned reg obj = Some j \<longrightarrow> assigned reg' obj = Some j)"
  using assms
proof (induction objs arbitrary: reg ids reg')
  case Nil
  then show ?case by simp
next
  case (Cons obj objs)
  obtain i reg1 where one: "getOrAssignId obj reg = (i, reg1)" by (cases "getOrAssignId obj reg")
  obtain ids1 reg2 where rest: "assign_all objs reg1 = (ids1, reg2)" by (cases "assign_all objs reg1")
  from Cons.prems(2) one rest have ids: "ids = i # ids1" and reg': "reg' = reg2" by simp_all
  note g = getOrAssignId_ok [OF Cons.prems(1) one]
  from g have ok1: "registry_ok reg1" by simp
  note r = Cons.IH [OF ok1 rest]
  have "assigned reg2 ((obj # objs) ! k) = Some ((i # ids1) ! k)" if "k < length (obj # objs)" for k
    using that g r by (cases k) auto
  moreover have "assigned reg2 obj' = Some j" if "assigned reg obj' = Some j" for obj' j
    using that g r by blast
  ultimately show ?case using r by (simp add: ids reg')
qed

text \<open>
  C9. Over the lifetime of one registry, from its creation on: any two
  requests return the same identifier exactly when they are for the same
  object.
\<close>

theorem registry_ids_stable_and_unique:
  assumes "assign_all objs new_registry = (ids, reg)"
  shows "length ids = length objs
    \<and> (\<forall>i < length objs. \<forall>j < length objs. (ids ! i = ids ! j) = (objs ! i = objs ! j))"
proof -
  note a = assign_all_ok [OF registry_ok_new assms]
  from a have inj: "\<And>o1 o2 k. assigned reg o1 = Some k \<Longrightarrow> assigned reg o2 = Some k \<Longrightarrow> o1 = o2"
    by (auto simp: registry_ok_def)
  have "(ids ! i = ids ! j) = (objs ! i = objs ! j)" if "i < length objs" "j < length objs" for i j
  proof
    assume "ids ! i = ids ! j"
    with a that show "objs ! i = objs ! j" by (auto intro: inj)
  next
    assume "objs ! i = objs ! j"
    with a that show "ids ! i = ids ! j" by (metis option.inject)
  qed
  with a show ?thesis by simp
qed

theorem registry_ids_stable_and_unique_witness:
  "assign_all [''actor'', ''camera'', ''actor''] new_registry
     = ([0, 1, 0], \<lparr>assigned = [''actor'' \<mapsto> 0, ''camera'' \<mapsto> 1], counter = 2\<rparr>)
   \<and> ([0, 1, 0 :: nat] ! 0 = [0, 1, 0] ! 2) = ([''actor'', ''camera'', ''actor''] ! 0 = [''actor'', ''camera'', ''actor''] ! 2)
   \<and> ([0, 1, 0 :: nat] ! 0 = [0, 1, 0] ! 1) = ([''actor'', ''camera'', ''actor''] ! 0 = [''actor'', ''camera'', ''actor''] ! 1)"
proof -
  have run: "assign_all [''actor'', ''camera'', ''actor''] new_registry
     = ([0, 1, 0], \<lparr>assigned = [''actor'' \<mapsto> 0, ''camera'' \<mapsto> 1], counter = 2\<rparr>)"
    by (simp add: getOrAssignId_def new_registry_def)
  from registry_ids_stable_and_unique [OF run] run show ?thesis by simp
qed

end
